theory Spec2Isabelle
  imports Complex_Main
begin

section \<open>PDF post-processing: the object graph\<close>

text \<open>
  The values that the outline builder stores in a dictionary. \<open>PDFHexString\<close> holds the
  text given to \<open>PDFHexString.fromText\<close>, \<open>PDFRef\<close> the object number of a reference
  (the generation number is always 0 for references made by \<open>nextRef\<close>), and
  \<open>PDFNumber\<close> a count of nodes (a JavaScript number that holds a natural number).
\<close>

datatype PDFObject =
    PDFHexString string
  | PDFName string
  | PDFRef nat
  | PDFNumber nat

text \<open>A \<open>PDFDict\<close> maps the text of a \<open>PDFName\<close> key to a value.\<close>

type_synonym PDFDict = "string \<rightharpoonup> PDFObject"

text \<open>
  The part of pdf-lib's \<open>PDFContext\<close> that \<open>PostProcess.toc\<close> uses: the counter behind
  \<open>nextRef\<close> and the table of indirect objects written by \<open>assign\<close>.
\<close>

record PDFContext =
  largestObjectNumber :: nat
  indirectObjects :: "nat \<rightharpoonup> PDFDict"

definition nextRef :: "PDFContext \<Rightarrow> nat \<times> PDFContext" where
  "nextRef ctx =
     (largestObjectNumber ctx + 1,
      ctx\<lparr>largestObjectNumber := largestObjectNumber ctx + 1\<rparr>)"

definition assign :: "nat \<Rightarrow> PDFDict \<Rightarrow> PDFContext \<Rightarrow> PDFContext" where
  "assign r obj ctx =
     ctx\<lparr>indirectObjects := (indirectObjects ctx)(r \<mapsto> obj),
         largestObjectNumber := max (largestObjectNumber ctx) r\<rparr>"

section \<open>The table of contents\<close>

text \<open>
  Modelled from the spec: the interface \<open>TOCItem\<close> is declared in \<open>./broker\<close>, which is
  not among the sources; the spec gives a TOC node as
  \<open>{ id: string, title: string, children: ordered sequence of TOC Node }\<close>.
\<close>

datatype TOCItem =
  TOCItem (id_toc: string) (title_toc: string) (children_toc: "TOCItem list")

text \<open>\<open>interface PDFTocItem extends TOCItem\<close>: a node together with its two references.\<close>

datatype PDFTocItem =
  PDFTocItem (id_pdf: string) (title_pdf: string) (children: "PDFTocItem list")
    (ref: nat) (parentRef: nat)

text \<open>
  \<open>addRefs\<close> maps over the items from left to right; for each item it takes the next
  reference first and then descends into the children, so the context is threaded
  through the calls in that order.
\<close>

fun addRefs :: "TOCItem list \<Rightarrow> nat \<Rightarrow> PDFContext \<Rightarrow> PDFTocItem list \<times> PDFContext" where
  "addRefs [] parent ctx = ([], ctx)"
| "addRefs (TOCItem i t cs # items) parent ctx =
     (let (r, ctx1) = nextRef ctx;
          (cs', ctx2) = addRefs cs r ctx1;
          (items', ctx3) = addRefs items parent ctx2
      in (PDFTocItem i t cs' r parent # items', ctx3))"

text \<open>
  \<open>items.reduce((sum, item) => sum + countAll(item.children), items.length)\<close>
\<close>

function countAll :: "PDFTocItem list \<Rightarrow> nat" where
  "countAll items =
     fold (\<lambda>item sum. sum + countAll (children item)) items (length items)"
  by pat_completeness auto
termination
proof (relation "measure (size_list size)")
  show "wf (measure (size_list (size :: PDFTocItem \<Rightarrow> nat)))"
    by simp
next
  fix items :: "PDFTocItem list" and x :: PDFTocItem
  assume "x \<in> set items"
  then have "size_list size (children x) < size_list size items"
  proof (induction items)
    case Nil
    then show ?case by simp
  next
    case (Cons a items)
    then show ?case by (cases x) auto
  qed
  then show "(children x, items) \<in> measure (size_list size)"
    by simp
qed

text \<open>
  Reading \<open>items[i]\<close> in JavaScript gives \<open>undefined\<close> (here \<open>None\<close>) when \<open>i\<close> is
  negative or not below the length; \<open>addObjectsToPDF\<close> relies on it for \<open>items[i - 1]\<close>
  at the first item and for \<open>items[i + 1]\<close> at the last one.
\<close>

definition at_index :: "'a list \<Rightarrow> int \<Rightarrow> 'a option" where
  "at_index xs i = (if 0 \<le> i \<and> i < int (length xs) then Some (xs ! nat i) else None)"

text \<open>
  The dictionary \<open>child\<close> that one round of the loop of \<open>addObjectsToPDF\<close> builds for
  the item at index \<open>i\<close> of \<open>items\<close>. An item is an object, so \<open>if (prev)\<close> and
  \<open>if (next)\<close> test whether the index is in range.
\<close>

definition outlineItem :: "PDFTocItem list \<Rightarrow> nat \<Rightarrow> PDFTocItem \<Rightarrow> PDFDict" where
  "outlineItem items i item =
     (let child = Map.empty;
          child = child(''Title'' \<mapsto> PDFHexString (title_pdf item));
          child = child(''Dest'' \<mapsto> PDFName (id_pdf item));
          child = child(''Parent'' \<mapsto> PDFRef (parentRef item));
          prev = at_index items (int i - 1);
          child = (case prev of
                     Some p \<Rightarrow> child(''Prev'' \<mapsto> PDFRef (ref p))
                   | None \<Rightarrow> child);
          next = at_index items (int i + 1);
          child = (case next of
                     Some n \<Rightarrow> child(''Next'' \<mapsto> PDFRef (ref n))
                   | None \<Rightarrow> child);
          child = (if length (children item) \<noteq> 0
                   then child(''First'' \<mapsto> PDFRef (ref (children item ! 0)),
                              ''Last'' \<mapsto>
                                PDFRef (ref (children item ! (length (children item) - 1))),
                              ''Count'' \<mapsto> PDFNumber (countAll (children item)))
                   else child)
      in child)"

text \<open>
  \<open>for (const [i, item] of items.entries())\<close>: the item's dictionary is assigned to
  its reference, then the loop descends into its children, then goes on to the next
  item.
\<close>

function addObjectsToPDF :: "PDFTocItem list \<Rightarrow> PDFContext \<Rightarrow> PDFContext" where
  "addObjectsToPDF items ctx =
     fold (\<lambda>entry ctx'.
             addObjectsToPDF (children (snd entry))
               (assign (ref (snd entry)) (outlineItem items (fst entry) (snd entry)) ctx'))
          (enumerate 0 items) ctx"
  by pat_completeness auto
termination
proof (relation "measure (\<lambda>(items, ctx). size_list size items)")
  show "wf (measure (\<lambda>(items :: PDFTocItem list, ctx :: PDFContext). size_list size items))"
    by simp
next
  fix items :: "PDFTocItem list" and ctx :: PDFContext
    and x :: "nat \<times> PDFTocItem" and xa :: PDFContext
  assume "x \<in> set (enumerate 0 items)"
  then have "snd x \<in> set items"
    using nth_mem [of "fst x" items] by (auto simp: in_set_enumerate_eq)
  then have "size_list size (children (snd x)) < size_list size items"
  proof (induction items)
    case Nil
    then show ?case by simp
  next
    case (Cons a items)
    then show ?case by (cases "snd x") auto
  qed
  then show "((children (snd x),
               assign (ref (snd x)) (outlineItem items (fst x) (snd x)) xa),
              items, ctx)
             \<in> measure (\<lambda>(items, ctx). size_list size items)"
    by simp
qed

section \<open>JavaScript numbers\<close>

text \<open>
  A JavaScript number is an IEEE 754 binary64 value. A finite one is a rational; NaN and
  the two infinities are one value \<open>NotFinite\<close>, which is enough for the two operations
  of \<open>PostProcess.cover\<close>: a division by a finite number and a product with a finite
  left factor both stay \<open>NotFinite\<close> once an argument is. The sign of zero is not kept.
\<close>

datatype number = Num rat | NotFinite

text \<open>The number of binary digits of a natural number.\<close>

fun bits :: "nat \<Rightarrow> nat" where
  "bits n = (if n = 0 then 0 else Suc (bits (n div 2)))"

definition pow2 :: "int \<Rightarrow> rat" where
  "pow2 e = (if 0 \<le> e then 2 ^ nat e else 1 / 2 ^ nat (- e))"

text \<open>
  \<open>ilog2 x\<close> is the exponent \<open>e\<close> with \<open>2\<^sup>e \<le> x < 2\<^sup>e\<^sup>+\<^sup>1\<close>, for \<open>x > 0\<close>: one less than
  the number of digits of the integer part when \<open>x \<ge> 1\<close>, and otherwise the least \<open>k\<close>
  with \<open>1 / x \<le> 2\<^sup>k\<close>, negated.
\<close>

definition ilog2 :: "rat \<Rightarrow> int" where
  "ilog2 x =
     (if 1 \<le> x then int (bits (nat \<lfloor>x\<rfloor>)) - 1
      else - int (bits (nat (\<lceil>1 / x\<rceil> - 1))))"

text \<open>Rounding to the nearest integer, a tie going to the even one.\<close>

definition round_half_even :: "rat \<Rightarrow> int" where
  "round_half_even q =
     (let f = \<lfloor>q\<rfloor>; d = q - of_int f
      in if d < 1 / 2 then f
         else if 1 / 2 < d then f + 1
         else if even f then f else f + 1)"

text \<open>
  Rounding an exact result to binary64: 53 significant bits, the least exponent
  \<open>-1022\<close> (below it the spacing stays \<open>2\<^sup>-\<^sup>1\<^sup>0\<^sup>7\<^sup>4\<close>), overflow from \<open>2\<^sup>1\<^sup>0\<^sup>2\<^sup>4\<close> on.
\<close>

definition js_round :: "rat \<Rightarrow> number" where
  "js_round x =
     (if x = 0 then Num 0
      else let e = max (ilog2 \<bar>x\<bar>) (- 1022);
               quantum = pow2 (e - 52);
               y = of_int (round_half_even (x / quantum)) * quantum
           in if pow2 1024 \<le> \<bar>y\<bar> then NotFinite else Num y)"

text \<open>\<open>x / y\<close> for a finite \<open>y\<close>, and \<open>x * y\<close> for a finite \<open>x\<close>.\<close>

fun js_div :: "number \<Rightarrow> rat \<Rightarrow> number" where
  "js_div (Num x) y = (if y = 0 then NotFinite else js_round (x / y))"
| "js_div NotFinite y = NotFinite"

fun js_mul :: "rat \<Rightarrow> number \<Rightarrow> number" where
  "js_mul x (Num y) = js_round (x * y)"
| "js_mul x NotFinite = NotFinite"

section \<open>The document\<close>

text \<open>
  An embedded image with its intrinsic size in pixels, as the PNG or JPEG decoder of
  pdf-lib reports it, and its bytes.
\<close>

type_synonym bytes = "nat list"

record PDFImage =
  width :: nat
  height :: nat
  data :: bytes

text \<open>
  A page: its size, and the images drawn on it, each with the width and height it is
  drawn at (\<open>drawImage\<close> puts it at the origin when no position is given).
\<close>

record PDFPage =
  page_width :: number
  page_height :: number
  drawn :: "(PDFImage \<times> number \<times> number) list"

text \<open>A \<open>Date\<close> object: its time value, \<open>None\<close> for an invalid date (time value NaN).\<close>

datatype JSDate = JSDate (timeValue: "int option")

text \<open>
  The state of a pdf-lib \<open>PDFDocument\<close> that \<open>PostProcess\<close> reads and writes: the object
  graph, the catalog, the pages, the embedded images, and the metadata fields behind
  \<open>setProducer\<close>, \<open>setTitle\<close>, \<open>setAuthor\<close>, \<open>setSubject\<close>, \<open>setKeywords\<close>,
  \<open>setCreator\<close>, \<open>setLanguage\<close> and \<open>setCreationDate\<close>, each named after the key it is
  saved under (\<open>None\<close> while a field is not set).
\<close>

record PDFDocument =
  pdf_context :: PDFContext
  catalog :: PDFDict
  pages :: "PDFPage list"
  images :: "PDFImage list"
  Producer :: "string option"
  Title :: "string option"
  Author :: "string option"
  Subject :: "string option"
  Keywords :: "string list option"
  Creator :: "string option"
  Language :: "string option"
  CreationDate :: "JSDate option"

datatype error =
    TypeError
  | AssetReadError
  | ImageDecodeError
  | PageIndexError

section \<open>\<open>PostProcess.toc\<close>\<close>

definition toc :: "TOCItem list \<Rightarrow> PDFDocument \<Rightarrow> PDFDocument" where
  "toc items document =
     (if length items = 0 then document
      else
        let (outlineRef, ctx1) = nextRef (pdf_context document);
            (itemsWithRefs, ctx2) = addRefs items outlineRef ctx1;
            ctx3 = addObjectsToPDF itemsWithRefs ctx2;
            outline = Map.empty;
            outline = outline(''First'' \<mapsto> PDFRef (ref (itemsWithRefs ! 0)));
            outline = outline(''Last'' \<mapsto>
                        PDFRef (ref (itemsWithRefs ! (length itemsWithRefs - 1))));
            outline = outline(''Count'' \<mapsto> PDFNumber (countAll itemsWithRefs));
            ctx4 = assign outlineRef outline ctx3
        in document\<lparr>pdf_context := ctx4,
                     catalog := (catalog document)(''Outlines'' \<mapsto> PDFRef outlineRef)\<rparr>)"

text \<open>
  The reference that \<open>toc\<close> takes for the outline root, and \<open>itemsWithRefs\<close>, the items
  with the references that \<open>toc\<close> gives them.
\<close>

definition toc_outlineRef :: "PDFDocument \<Rightarrow> nat" where
  "toc_outlineRef document = fst (nextRef (pdf_context document))"

definition toc_itemsWithRefs :: "TOCItem list \<Rightarrow> PDFDocument \<Rightarrow> PDFTocItem list" where
  "toc_itemsWithRefs items document =
     fst (addRefs items (toc_outlineRef document) (snd (nextRef (pdf_context document))))"

subsection \<open>The tree, as the specification counts it\<close>

text \<open>The number of nodes below a node, the node itself not counted.\<close>

fun descendants :: "TOCItem \<Rightarrow> nat" where
  "descendants (TOCItem i t cs) = (\<Sum>c\<leftarrow>cs. 1 + descendants c)"

text \<open>The number of nodes of a whole tree.\<close>

definition nodeCount :: "TOCItem list \<Rightarrow> nat" where
  "nodeCount items = (\<Sum>c\<leftarrow>items. 1 + descendants c)"

text \<open>A node without its references.\<close>

fun toTOCItem :: "PDFTocItem \<Rightarrow> TOCItem" where
  "toTOCItem (PDFTocItem i t cs r p) = TOCItem i t (map toTOCItem cs)"

text \<open>All nodes of a tree, a node before its children.\<close>

fun allNodes :: "PDFTocItem list \<Rightarrow> PDFTocItem list" where
  "allNodes [] = []"
| "allNodes (PDFTocItem i t cs r p # items) =
     PDFTocItem i t cs r p # allNodes cs @ allNodes items"

text \<open>
  All children sequences of a tree: the children sequence of every node (the empty
  ones too), and with them the sequence of top-level items.
\<close>

fun childLists :: "PDFTocItem list \<Rightarrow> PDFTocItem list list" where
  "childLists [] = []"
| "childLists (PDFTocItem i t cs r p # items) = cs # childLists cs @ childLists items"

definition siblings :: "PDFTocItem list \<Rightarrow> PDFTocItem list list" where
  "siblings items = items # childLists items"

text \<open>
  The assignments that \<open>addObjectsToPDF\<close> makes, in the order it makes them, as a list
  of references and dictionaries: \<open>assignmentsFrom items i rest\<close> lists those of the
  loop over \<open>items\<close> from index \<open>i\<close> on, where \<open>rest\<close> are the items still to visit.
\<close>

fun assignmentsFrom ::
  "PDFTocItem list \<Rightarrow> nat \<Rightarrow> PDFTocItem list \<Rightarrow> (nat \<times> PDFDict) list" where
  "assignmentsFrom items i [] = []"
| "assignmentsFrom items i (PDFTocItem a t cs r p # rest) =
     (r, outlineItem items i (PDFTocItem a t cs r p)) # assignmentsFrom cs 0 cs
       @ assignmentsFrom items (Suc i) rest"

section \<open>\<open>PostProcess.metadata\<close>\<close>

text \<open>
  Modelled from the spec: the interface \<open>Meta\<close> is declared in \<open>./broker\<close>, which is not
  among the sources. The spec gives a metadata record as a mapping from term
  identifiers to an ordered sequence of value entries, each entry with a primary
  textual value and an optional set of qualifier mappings; the code reads the text of
  an entry as \<open>.v\<close> and its qualifiers, a record of the same shape, as \<open>.r\<close>.
\<close>

datatype MetaItem =
  MetaItem (item_v: string) (item_r: "(string \<Rightarrow> MetaItem list option) option")

type_synonym Meta = "string \<rightharpoonup> MetaItem list"

definition prefixes_dcterms :: string where
  "prefixes_dcterms = ''http://purl.org/dc/terms/''"

definition prefixes_meta :: string where
  "prefixes_meta = ''http://idpf.org/epub/vocab/package/meta/#''"

definition metaTerms_title :: string where
  "metaTerms_title = prefixes_dcterms @ ''title''"

definition metaTerms_creator :: string where
  "metaTerms_creator = prefixes_dcterms @ ''creator''"

definition metaTerms_description :: string where
  "metaTerms_description = prefixes_dcterms @ ''description''"

definition metaTerms_subject :: string where
  "metaTerms_subject = prefixes_dcterms @ ''subject''"

definition metaTerms_contributor :: string where
  "metaTerms_contributor = prefixes_dcterms @ ''contributor''"

definition metaTerms_language :: string where
  "metaTerms_language = prefixes_dcterms @ ''language''"

definition metaTerms_role :: string where
  "metaTerms_role = prefixes_meta @ ''role''"

definition metaTerms_created :: string where
  "metaTerms_created = prefixes_meta @ ''created''"

definition metaTerms_date :: string where
  "metaTerms_date = prefixes_meta @ ''date''"

text \<open>
  \<open>items?.[0].v\<close>: \<open>undefined\<close> (here \<open>None\<close>) when the term is absent; when the term
  is there with no entry, \<open>[0]\<close> is \<open>undefined\<close> and reading \<open>.v\<close> of it throws a
  \<open>TypeError\<close>.
\<close>

definition first_v :: "MetaItem list option \<Rightarrow> error + string option" where
  "first_v items =
     (case items of
        None \<Rightarrow> Inr None
      | Some [] \<Rightarrow> Inl TypeError
      | Some (item # _) \<Rightarrow> Inr (Some (item_v item)))"

text \<open>\<open>if (text)\<close> for a string or \<open>undefined\<close>: the empty string is falsy too.\<close>

definition truthy :: "string option \<Rightarrow> bool" where
  "truthy text = (case text of None \<Rightarrow> False | Some t \<Rightarrow> t \<noteq> [])"

text \<open>\<open>Array.prototype.join\<close> on strings.\<close>

fun join :: "string \<Rightarrow> string list \<Rightarrow> string" where
  "join sep [] = []"
| "join sep [x] = x"
| "join sep (x # y # ys) = x @ sep @ join sep (y # ys)"

text \<open>
  \<open>Array.prototype.find\<close> with a predicate that may throw: the items are tested in
  order, up to the first one that the predicate accepts.
\<close>

fun find_js :: "('a \<Rightarrow> error + bool) \<Rightarrow> 'a list \<Rightarrow> error + 'a option" where
  "find_js p [] = Inr None"
| "find_js p (x # xs) =
     (case p x of
        Inl e \<Rightarrow> Inl e
      | Inr True \<Rightarrow> Inr (Some x)
      | Inr False \<Rightarrow> find_js p xs)"

text \<open>\<open>(item) => item.r?.[metaTerms.role]?.[0].v === 'bkp'\<close>\<close>

definition isBookProducer :: "MetaItem \<Rightarrow> error + bool" where
  "isBookProducer item =
     (case item_r item of
        None \<Rightarrow> Inr False
      | Some r \<Rightarrow>
          (case first_v (r metaTerms_role) of
             Inl e \<Rightarrow> Inl e
           | Inr role \<Rightarrow> Inr (role = Some ''bkp'')))"

text \<open>The setters of \<open>PDFDocument\<close>.\<close>

definition setProducer :: "string \<Rightarrow> PDFDocument \<Rightarrow> PDFDocument" where
  "setProducer text document = document\<lparr>Producer := Some text\<rparr>"

definition setTitle :: "string \<Rightarrow> PDFDocument \<Rightarrow> PDFDocument" where
  "setTitle text document = document\<lparr>Title := Some text\<rparr>"

definition setAuthor :: "string \<Rightarrow> PDFDocument \<Rightarrow> PDFDocument" where
  "setAuthor text document = document\<lparr>Author := Some text\<rparr>"

definition setSubject :: "string \<Rightarrow> PDFDocument \<Rightarrow> PDFDocument" where
  "setSubject text document = document\<lparr>Subject := Some text\<rparr>"

definition setKeywords :: "string list \<Rightarrow> PDFDocument \<Rightarrow> PDFDocument" where
  "setKeywords texts document = document\<lparr>Keywords := Some texts\<rparr>"

definition setCreator :: "string \<Rightarrow> PDFDocument \<Rightarrow> PDFDocument" where
  "setCreator text document = document\<lparr>Creator := Some text\<rparr>"

definition setLanguage :: "string \<Rightarrow> PDFDocument \<Rightarrow> PDFDocument" where
  "setLanguage text document = document\<lparr>Language := Some text\<rparr>"

definition setCreationDate :: "JSDate \<Rightarrow> PDFDocument \<Rightarrow> PDFDocument" where
  "setCreationDate date document = document\<lparr>CreationDate := Some date\<rparr>"

text \<open>\<open>tree[metaTerms.contributor]?.find(\<dots>)\<close>\<close>

definition contributorFound :: "Meta \<Rightarrow> error + MetaItem option" where
  "contributorFound tree =
     (case tree metaTerms_contributor of
        None \<Rightarrow> Inr None
      | Some items \<Rightarrow> find_js isBookProducer items)"

text \<open>
  \<open>tree[metaTerms.created] || tree[metaTerms.date]\<close>: an array is truthy, also an
  empty one, so this is \<open>created\<close> when the record has it, otherwise \<open>date\<close>.
\<close>

definition creationTerm :: "Meta \<Rightarrow> MetaItem list option" where
  "creationTerm tree =
     (case tree metaTerms_created of
        Some items \<Rightarrow> Some items
      | None \<Rightarrow> tree metaTerms_date)"

text \<open>
  \<open>metadata\<close> changes the document in place, so a \<open>TypeError\<close> thrown on the way leaves
  the changes made before it: the result is the error, if any, and the document as it
  is when the call ends. \<open>newDate\<close> is the constructor \<open>new Date(text)\<close> of the
  JavaScript engine. A \<open>Date\<close> object is truthy whether it is valid or not, so
  \<open>creation && new Date(creation)\<close> is falsy exactly when \<open>creation\<close> is.
\<close>

definition metadata ::
  "(string \<Rightarrow> JSDate) \<Rightarrow> Meta \<Rightarrow> PDFDocument \<Rightarrow> error option \<times> PDFDocument" where
  "metadata newDate tree document0 =
     (let document1 = setProducer ''Vivliostyle'' document0 in
      case first_v (tree metaTerms_title) of
        Inl e \<Rightarrow> (Some e, document1)
      | Inr title \<Rightarrow>
      let document2 = (if truthy title then setTitle (the title) document1 else document1);
          author = map_option (\<lambda>items. join ''; '' (map item_v items))
                     (tree metaTerms_creator);
          document3 = (if truthy author then setAuthor (the author) document2 else document2)
      in
      case first_v (tree metaTerms_description) of
        Inl e \<Rightarrow> (Some e, document3)
      | Inr subject \<Rightarrow>
      let document4 =
            (if truthy subject then setSubject (the subject) document3 else document3);
          keywords = map_option (map item_v) (tree metaTerms_subject);
          document5 = (case keywords of
                         Some texts \<Rightarrow> setKeywords texts document4
                       | None \<Rightarrow> document4)
      in
      case contributorFound tree of
        Inl e \<Rightarrow> (Some e, document5)
      | Inr found \<Rightarrow>
      let creator = map_option item_v found;
          document6 =
            (if truthy creator then setCreator (the creator) document5 else document5)
      in
      case first_v (tree metaTerms_language) of
        Inl e \<Rightarrow> (Some e, document6)
      | Inr language \<Rightarrow>
      let document7 =
            (if truthy language then setLanguage (the language) document6 else document6)
      in
      case first_v (creationTerm tree) of
        Inl e \<Rightarrow> (Some e, document7)
      | Inr creation \<Rightarrow>
      let creationDate = (if truthy creation then Some (newDate (the creation)) else None)
      in (None, case creationDate of
                  Some date \<Rightarrow> setCreationDate date document7
                | None \<Rightarrow> document7))"

text \<open>
  The role that a contributor entry is given: the text of the first entry of its
  \<open>role\<close> qualifier, when it has one.
\<close>

definition roleOf :: "MetaItem \<Rightarrow> string option" where
  "roleOf item =
     (case item_r item of
        None \<Rightarrow> None
      | Some r \<Rightarrow>
          (case r metaTerms_role of
             Some (entry # _) \<Rightarrow> Some (item_v entry)
           | _ \<Rightarrow> None))"

section \<open>The file system and the libraries\<close>

text \<open>
  The files, with a log of the paths read with \<open>fs.promises.readFile\<close>, of the paths
  written with \<open>fs.promises.writeFile\<close>, and of the calls of the \<open>build\<close> function of
  press-ready with their \<open>input\<close> and \<open>output\<close>. Reading a path that has no file fails;
  a write is taken to succeed. What \<open>build\<close> itself does to the files is not part of
  this program.
\<close>

record World =
  files :: "string \<rightharpoonup> bytes"
  readLog :: "string list"
  writeLog :: "string list"
  buildLog :: "(string \<times> string) list"

definition readFile :: "string \<Rightarrow> World \<Rightarrow> (error + bytes) \<times> World" where
  "readFile path world =
     (case files world path of
        None \<Rightarrow> (Inl AssetReadError, world\<lparr>readLog := readLog world @ [path]\<rparr>)
      | Some content \<Rightarrow> (Inr content, world\<lparr>readLog := readLog world @ [path]\<rparr>))"



text \<open>
  The functions of Node.js, pdf-lib and uuid that the program calls and whose results
  it only passes on: \<open>url.parse(text).pathname\<close> (\<open>None\<close> for \<open>null\<close>), \<open>path.join\<close>,
  \<open>os.tmpdir()\<close>, the identifier that \<open>uuid()\<close> returns in this call, the PNG and the
  JPEG decoder behind \<open>embedPng\<close> and \<open>embedJpg\<close> (\<open>None\<close> when the bytes are not an
  image of that format and the call throws), and \<open>PDFDocument.save\<close>.
\<close>

record Runtime =
  url_pathname :: "string \<Rightarrow> string option"
  path_join :: "string \<Rightarrow> string \<Rightarrow> string"
  os_tmpdir :: string
  uuid :: string
  decodePng :: "bytes \<Rightarrow> PDFImage option"
  decodeJpg :: "bytes \<Rightarrow> PDFImage option"
  serialize :: "PDFDocument \<Rightarrow> bytes"

section \<open>\<open>PostProcess.cover\<close>\<close>

text \<open>
  Modelled from the spec: the interface \<open>CoverItem\<close> is declared in \<open>./broker\<close>, which is
  not among the sources; the spec gives a cover descriptor as
  \<open>{ src: URI string, mediaType: string }\<close>.
\<close>

record CoverItem =
  src :: string
  mediaType :: string

text \<open>
  The statements after the \<open>switch\<close>: \<open>getPage(0)\<close> throws when the document has no
  page; \<open>image.scale(factor)\<close> is
  \<open>{ width: image.width * factor, height: image.height * factor }\<close>; the new page is
  put before all others and the image is drawn on it at that size.
\<close>

definition cover_insert ::
  "PDFImage \<Rightarrow> PDFDocument \<Rightarrow> World \<Rightarrow> error option \<times> PDFDocument \<times> World" where
  "cover_insert img document world =
     (case pages document of
        [] \<Rightarrow> (Some PageIndexError, document, world)
      | page0 # _ \<Rightarrow>
          let targetWidth = page_width page0;
              factor = js_div targetWidth (of_nat (width img));
              imageSize = (js_mul (of_nat (width img)) factor,
                           js_mul (of_nat (height img)) factor);
              page = \<lparr>page_width = fst imageSize, page_height = snd imageSize, drawn = []\<rparr>;
              page = page\<lparr>drawn := drawn page @ [(img, fst imageSize, snd imageSize)]\<rparr>
          in (None, document\<lparr>pages := page # pages document\<rparr>, world))"

text \<open>
  \<open>cover\<close>, up to the end of the \<open>switch\<close>, with \<open>rootDir\<close> for its parameter \<open>root\<close> and
  \<open>img\<close> for its variable \<open>image\<close>. A path name is a string or \<open>null\<close>, and
  \<open>!pathName\<close> holds for \<open>null\<close> and for the empty string. An embedded image is kept
  in the document.
\<close>

definition cover ::
  "Runtime \<Rightarrow> CoverItem option \<Rightarrow> string \<Rightarrow> PDFDocument \<Rightarrow> World
     \<Rightarrow> error option \<times> PDFDocument \<times> World" where
  "cover rt coverItem rootDir document world =
     (case coverItem of
        None \<Rightarrow> (None, document, world)
      | Some c \<Rightarrow>
          (case url_pathname rt (src c) of
             None \<Rightarrow> (None, document, world)
           | Some pathName \<Rightarrow>
               if pathName = [] then (None, document, world)
               else
                 let imagePath = path_join rt rootDir pathName in
                 if mediaType c = ''image/png'' then
                   (case readFile imagePath world of
                      (Inl e, world1) \<Rightarrow> (Some e, document, world1)
                    | (Inr pngBytes, world1) \<Rightarrow>
                        (case decodePng rt pngBytes of
                           None \<Rightarrow> (Some ImageDecodeError, document, world1)
                         | Some img \<Rightarrow>
                             cover_insert img
                               (document\<lparr>images := images document @ [img]\<rparr>) world1))
                 else if mediaType c = ''image/jpeg'' then
                   (case readFile imagePath world of
                      (Inl e, world1) \<Rightarrow> (Some e, document, world1)
                    | (Inr jpgBytes, world1) \<Rightarrow>
                        (case decodeJpg rt jpgBytes of
                           None \<Rightarrow> (Some ImageDecodeError, document, world1)
                         | Some img \<Rightarrow>
                             cover_insert img
                               (document\<lparr>images := images document @ [img]\<rparr>) world1))
                 else (None, document, world)))"

section \<open>\<open>PostProcess.save\<close>\<close>


section \<open>Example inputs\<close>

text \<open>
  A document of one page, 600 wide, with no metadata field set and object numbers up
  to 10 in use.
\<close>

definition example_document :: PDFDocument where
  "example_document =
     \<lparr>pdf_context = \<lparr>largestObjectNumber = 10, indirectObjects = Map.empty\<rparr>,
      catalog = Map.empty,
      pages = [\<lparr>page_width = Num 600, page_height = Num 800, drawn = []\<rparr>],
      images = [],
      Producer = None, Title = None, Author = None, Subject = None, Keywords = None,
      Creator = None, Language = None, CreationDate = None\<rparr>"

text \<open>A table of contents of two chapters, the first with two sections.\<close>

definition example_toc :: "TOCItem list" where
  "example_toc =
     [TOCItem ''ch1'' ''One'' [TOCItem ''s1'' ''First'' [], TOCItem ''s2'' ''Second'' []],
      TOCItem ''ch2'' ''Two'' []]"

text \<open>A role qualifier, and metadata records around the edges of \<open>metadata\<close>.\<close>

definition role_bkp :: "string \<Rightarrow> MetaItem list option" where
  "role_bkp = Map.empty(metaTerms_role \<mapsto> [MetaItem ''bkp'' None])"

definition meta_empty_title :: Meta where
  "meta_empty_title = Map.empty(metaTerms_title \<mapsto> [MetaItem [] None])"

definition meta_titled :: Meta where
  "meta_titled = Map.empty(metaTerms_title \<mapsto> [MetaItem ''Book'' None])"

definition meta_producer_A :: Meta where
  "meta_producer_A =
     Map.empty(metaTerms_contributor \<mapsto>
       [MetaItem ''A'' (Some role_bkp), MetaItem ''B'' None])"

definition meta_contributor_B :: Meta where
  "meta_contributor_B = Map.empty(metaTerms_contributor \<mapsto> [MetaItem ''B'' None])"

definition meta_unnamed_producer :: Meta where
  "meta_unnamed_producer =
     Map.empty(metaTerms_contributor \<mapsto>
       [MetaItem [] (Some role_bkp), MetaItem ''B'' (Some role_bkp)])"

definition meta_undated :: Meta where
  "meta_undated =
     Map.empty(metaTerms_created \<mapsto> [MetaItem [] None],
               metaTerms_date \<mapsto> [MetaItem ''2020-01-01'' None])"

definition meta_bad_date :: Meta where
  "meta_bad_date = Map.empty(metaTerms_created \<mapsto> [MetaItem ''soon'' None])"

text \<open>A \<open>Date\<close> constructor that finds every text unparsable.\<close>

definition invalidDate :: "string \<Rightarrow> JSDate" where
  "invalidDate text = JSDate None"

text \<open>
  Libraries for the examples: a path name is the text itself, paths are joined with a
  slash, and an image file is taken to hold just its width and its height.
\<close>

definition example_decode :: "bytes \<Rightarrow> PDFImage option" where
  "example_decode content =
     (case content of
        [w, h] \<Rightarrow> Some \<lparr>width = w, height = h, data = content\<rparr>
      | _ \<Rightarrow> None)"

definition example_runtime :: Runtime where
  "example_runtime =
     \<lparr>url_pathname = Some,
      path_join = (\<lambda>a b. a @ ''/'' @ b),
      os_tmpdir = ''/tmp'',
      uuid = ''6c84fb90-12c4-11e1-840d-7b25c5ee775a'',
      decodePng = example_decode,
      decodeJpg = example_decode,
      serialize = (\<lambda>document. [37, 80, 68, 70])\<rparr>"

definition example_world :: World where
  "example_world =
     \<lparr>files = Map.empty(''/book/cover.png'' \<mapsto> [1200, 800],
                         ''/book/narrow.png'' \<mapsto> [73, 100]),
      readLog = [], writeLog = [], buildLog = []\<rparr>"

section \<open>The outline builder\<close>

declare countAll.simps [simp del] addObjectsToPDF.simps [simp del] bits.simps [simp del]

lemma fold_plus: "fold (\<lambda>item sum. sum + f item) xs (a::nat) = a + sum_list (map f xs)"
  by (induction xs arbitrary: a) auto

lemma length_allNodes:
  "length (allNodes items) = length items + (\<Sum>item\<leftarrow>items. length (allNodes (children item)))"
  by (induction items rule: allNodes.induct) auto

lemma countAll_allNodes: "countAll items = length (allNodes items)"
proof (induction items rule: countAll.induct)
  case (1 items)
  have "countAll items = length items + (\<Sum>item\<leftarrow>items. countAll (children item))"
    by (subst countAll.simps) (simp add: fold_plus)
  also have "(\<Sum>item\<leftarrow>items. countAll (children item))
             = (\<Sum>item\<leftarrow>items. length (allNodes (children item)))"
    using 1 by (auto intro: arg_cong [where f = sum_list])
  finally show ?case
    by (simp add: length_allNodes [symmetric])
qed

lemma nodeCount_allNodes: "(\<Sum>c\<leftarrow>map toTOCItem items. 1 + descendants c) = length (allNodes items)"
  by (induction items rule: allNodes.induct) (auto simp: comp_def)

lemma descendants_allNodes: "descendants (toTOCItem node) = length (allNodes (children node))"
  using nodeCount_allNodes [of "children node"] by (cases node) (simp add: comp_def)

lemma upt_split3:
  "[m ..< Suc m + (a + b)] = m # [Suc m ..< Suc m + a] @ [Suc m + a ..< Suc m + a + b]"
proof -
  have "[Suc m ..< Suc m + a + b] = [Suc m ..< Suc m + a] @ [Suc m + a ..< Suc m + a + b]"
    by (rule upt_add_eq_append) simp
  moreover have "[m ..< Suc m + (a + b)] = m # [Suc m ..< Suc m + a + b]"
    by (subst upt_rec) (simp add: add.assoc)
  ultimately show ?thesis by simp
qed

lemma addRefs_result:
  "addRefs items p ctx = (its, ctx') \<Longrightarrow>
     map toTOCItem its = items \<and>
     ctx' = ctx\<lparr>largestObjectNumber := largestObjectNumber ctx + length (allNodes its)\<rparr> \<and>
     map ref (allNodes its) =
       [Suc (largestObjectNumber ctx) ..< Suc (largestObjectNumber ctx) + length (allNodes its)]"
proof (induction items p ctx arbitrary: its ctx' rule: addRefs.induct)
  case (1 parent ctx)
  then show ?case by simp
next
  case (2 i t cs items parent ctx)
  let ?n = "largestObjectNumber ctx"
  obtain r ctx1 where n: "nextRef ctx = (r, ctx1)" by (cases "nextRef ctx")
  obtain cs' ctx2 where c: "addRefs cs r ctx1 = (cs', ctx2)" by (cases "addRefs cs r ctx1")
  obtain items' ctx3 where r: "addRefs items parent ctx2 = (items', ctx3)"
    by (cases "addRefs items parent ctx2")
  let ?a = "length (allNodes cs')" and ?b = "length (allNodes items')"
  from n have n': "r = Suc ?n" "ctx1 = ctx\<lparr>largestObjectNumber := Suc ?n\<rparr>"
    by (auto simp: nextRef_def)
  from 2(1) [OF n [symmetric] refl c] n'
  have ih1: "map toTOCItem cs' = cs"
    "ctx2 = ctx\<lparr>largestObjectNumber := Suc ?n + ?a\<rparr>"
    "map ref (allNodes cs') = [Suc (Suc ?n) ..< Suc (Suc ?n) + ?a]"
    by simp_all
  from 2(2) [OF n [symmetric] refl c [symmetric] refl r] ih1(2)
  have ih2: "map toTOCItem items' = items"
    "ctx3 = ctx\<lparr>largestObjectNumber := Suc ?n + ?a + ?b\<rparr>"
    "map ref (allNodes items') = [Suc (Suc ?n) + ?a ..< Suc (Suc ?n) + ?a + ?b]"
    by simp_all
  from 2(3) n c r have its: "its = PDFTocItem i t cs' r parent # items'" and ctx': "ctx' = ctx3"
    by simp_all
  have "map toTOCItem its = TOCItem i t cs # items"
    by (simp add: its ih1(1) ih2(1))
  moreover have "ctx' = ctx\<lparr>largestObjectNumber := ?n + length (allNodes its)\<rparr>"
    by (simp add: its ctx' ih2(2))
  moreover have "map ref (allNodes its) = [Suc ?n ..< Suc ?n + length (allNodes its)]"
  proof -
    have "map ref (allNodes its) = Suc ?n # map ref (allNodes cs') @ map ref (allNodes items')"
      by (simp add: its n'(1))
    also have "\<dots> = [Suc ?n ..< Suc (Suc ?n) + (?a + ?b)]"
      by (simp only: ih1(3) ih2(3) upt_split3)
    also have "Suc (Suc ?n) + (?a + ?b) = Suc ?n + length (allNodes its)"
      by (simp add: its)
    finally show ?thesis .
  qed
  ultimately show ?case by blast
qed

lemma assignmentsFrom_fst: "map fst (assignmentsFrom items k rest) = map ref (allNodes rest)"
  by (induction items k rest rule: assignmentsFrom.induct) auto

lemma fold_assign:
  "indirectObjects (fold (\<lambda>(r, d). assign r d) ws ctx) = indirectObjects ctx ++ map_of (rev ws)"
proof (induction ws arbitrary: ctx)
  case Nil
  then show ?case by simp
next
  case (Cons w ws)
  obtain r d where w: "w = (r, d)" by (cases w)
  have "indirectObjects (fold (\<lambda>(r, d). assign r d) (w # ws) ctx)
        = indirectObjects (assign r d ctx) ++ map_of (rev ws)"
    using Cons [of "assign r d ctx"] by (simp add: w)
  also have "indirectObjects (assign r d ctx) = indirectObjects ctx ++ map_of [(r, d)]"
    by (simp add: assign_def)
  also have "(indirectObjects ctx ++ map_of [(r, d)]) ++ map_of (rev ws)
             = indirectObjects ctx ++ map_of (rev (w # ws))"
    by (simp only: w rev.simps map_of_append map_add_assoc)
  finally show ?case .
qed

lemma fold_assign_lookup:
  assumes "distinct (map fst ws)" and "(r, d) \<in> set ws"
  shows "indirectObjects (fold (\<lambda>(r, d). assign r d) ws ctx) r = Some d"
proof -
  have "map_of (rev ws) r = Some d"
    using assms by (simp add: distinct_rev rev_map [symmetric])
  then show ?thesis
    by (simp add: fold_assign)
qed

lemma addObjectsToPDF_loop:
  assumes ih: "\<And>entry c. entry \<in> set (enumerate k rest) \<Longrightarrow>
      addObjectsToPDF (children (snd entry))
        (assign (ref (snd entry)) (outlineItem items (fst entry) (snd entry)) c)
      = fold (\<lambda>(r, d). assign r d) (assignmentsFrom (children (snd entry)) 0 (children (snd entry)))
          (assign (ref (snd entry)) (outlineItem items (fst entry) (snd entry)) c)"
  shows "fold (\<lambda>entry ctx'.
             addObjectsToPDF (children (snd entry))
               (assign (ref (snd entry)) (outlineItem items (fst entry) (snd entry)) ctx'))
          (enumerate k rest) ctx
         = fold (\<lambda>(r, d). assign r d) (assignmentsFrom items k rest) ctx"
  using ih
proof (induction rest arbitrary: k ctx)
  case Nil
  then show ?case by simp
next
  case (Cons item rest)
  obtain a t cs r p where item: "item = PDFTocItem a t cs r p"
    by (cases item)
  have here: "addObjectsToPDF cs (assign r (outlineItem items k item) c)
      = fold (\<lambda>(r, d). assign r d) (assignmentsFrom cs 0 cs)
          (assign r (outlineItem items k item) c)" for c
    using Cons.prems [of "(k, item)" c] by (simp add: item)
  have rest: "fold (\<lambda>entry ctx'.
             addObjectsToPDF (children (snd entry))
               (assign (ref (snd entry)) (outlineItem items (fst entry) (snd entry)) ctx'))
          (enumerate (Suc k) rest) c
         = fold (\<lambda>(r, d). assign r d) (assignmentsFrom items (Suc k) rest) c" for c
    using Cons.IH [of "Suc k" c] Cons.prems by simp
  show ?case
    using here by (simp add: item rest)
qed

lemma addObjectsToPDF_assignments:
  "addObjectsToPDF items ctx = fold (\<lambda>(r, d). assign r d) (assignmentsFrom items 0 items) ctx"
proof (induction items ctx rule: addObjectsToPDF.induct)
  case (1 items ctx)
  show ?case
    by (subst addObjectsToPDF.simps) (rule addObjectsToPDF_loop, rule 1)
qed

lemma assignmentsFrom_drop:
  "rest = drop k items \<Longrightarrow> j < length rest \<Longrightarrow>
     (ref (items ! (k + j)), outlineItem items (k + j) (items ! (k + j)))
       \<in> set (assignmentsFrom items k rest)"
proof (induction rest arbitrary: k j)
  case Nil
  then show ?case by simp
next
  case (Cons item rest)
  obtain a t cs r p where item: "item = PDFTocItem a t cs r p"
    by (cases item)
  from Cons.prems(1) have k: "k < length items"
    by (cases "k < length items") auto
  with Cons.prems(1) Cons_nth_drop_Suc [of k items]
  have "item # rest = items ! k # drop (Suc k) items"
    by metis
  then have at: "items ! k = item" and rest: "rest = drop (Suc k) items"
    by simp_all
  show ?case
  proof (cases j)
    case 0
    then show ?thesis by (simp add: at item)
  next
    case (Suc j')
    with Cons.IH [OF rest, of j'] Cons.prems(2) show ?thesis
      by (simp add: item)
  qed
qed

lemma assignmentsFrom_children:
  "s \<in> set (childLists rest) \<Longrightarrow> i < length s \<Longrightarrow>
     (ref (s ! i), outlineItem s i (s ! i)) \<in> set (assignmentsFrom items k rest)"
proof (induction items k rest rule: assignmentsFrom.induct)
  case (1 items i)
  then show ?case by simp
next
  case (2 items k a t cs r p rest)
  from "2.prems"(1) consider "s = cs" | "s \<in> set (childLists cs)" | "s \<in> set (childLists rest)"
    by auto
  then show ?case
  proof cases
    case 1
    with assignmentsFrom_drop [of cs 0 cs i] "2.prems"(2) show ?thesis by simp
  next
    case 2
    with "2.IH"(1) "2.prems"(2) show ?thesis by simp
  next
    case 3
    with "2.IH"(2) "2.prems"(2) show ?thesis by simp
  qed
qed

lemma assignmentsFrom_siblings:
  assumes "s \<in> set (siblings items)" and "i < length s"
  shows "(ref (s ! i), outlineItem s i (s ! i)) \<in> set (assignmentsFrom items 0 items)"
proof (cases "s = items")
  case True
  with assignmentsFrom_drop [of items 0 items i] assms(2) show ?thesis by simp
next
  case False
  with assms show ?thesis
    by (simp add: siblings_def assignmentsFrom_children)
qed


lemma toc_unfold:
  assumes "items \<noteq> []"
  shows "toc items document =
     document\<lparr>pdf_context :=
        assign (toc_outlineRef document)
          (Map.empty(''First'' \<mapsto> PDFRef (ref (toc_itemsWithRefs items document ! 0)),
             ''Last'' \<mapsto> PDFRef (ref (toc_itemsWithRefs items document
                  ! (length (toc_itemsWithRefs items document) - 1))),
             ''Count'' \<mapsto> PDFNumber (countAll (toc_itemsWithRefs items document))))
          (addObjectsToPDF (toc_itemsWithRefs items document)
             (snd (addRefs items (toc_outlineRef document) (snd (nextRef (pdf_context document)))))),
       catalog := (catalog document)(''Outlines'' \<mapsto> PDFRef (toc_outlineRef document))\<rparr>"
  using assms
  by (simp add: toc_def toc_outlineRef_def toc_itemsWithRefs_def Let_def split: prod.splits)

lemma toc_addRefs:
  "map toTOCItem (toc_itemsWithRefs items document) = items \<and>
   map ref (allNodes (toc_itemsWithRefs items document))
   = [Suc (toc_outlineRef document) ..<
        Suc (toc_outlineRef document) + length (allNodes (toc_itemsWithRefs items document))]"
proof -
  obtain its ctx' where a: "addRefs items (toc_outlineRef document)
      (snd (nextRef (pdf_context document))) = (its, ctx')"
    by (cases "addRefs items (toc_outlineRef document) (snd (nextRef (pdf_context document)))")
  have its: "toc_itemsWithRefs items document = its"
    by (simp add: toc_itemsWithRefs_def a)
  have n: "largestObjectNumber (snd (nextRef (pdf_context document))) = toc_outlineRef document"
    by (simp add: toc_outlineRef_def nextRef_def)
  from addRefs_result [OF a] show ?thesis
    unfolding its n by blast
qed

lemma toc_items: "map toTOCItem (toc_itemsWithRefs items document) = items"
  using toc_addRefs [of items document] by blast

lemma toc_refs:
  "map ref (allNodes (toc_itemsWithRefs items document))
   = [Suc (toc_outlineRef document) ..<
        Suc (toc_outlineRef document) + length (allNodes (toc_itemsWithRefs items document))]"
  using toc_addRefs [of items document] by blast

lemma toc_lookup_node:
  assumes "items \<noteq> []" and "s \<in> set (siblings (toc_itemsWithRefs items document))"
    and "i < length s"
  shows "indirectObjects (pdf_context (toc items document)) (ref (s ! i))
         = Some (outlineItem s i (s ! i))"
proof -
  let ?its = "toc_itemsWithRefs items document"
  let ?ws = "assignmentsFrom ?its 0 ?its"
  have d: "distinct (map fst ?ws)"
    by (simp add: assignmentsFrom_fst toc_refs)
  have m: "(ref (s ! i), outlineItem s i (s ! i)) \<in> set ?ws"
    using assms(2,3) by (rule assignmentsFrom_siblings)
  then have "ref (s ! i) \<in> set (map fst ?ws)"
    by force
  then have ne: "ref (s ! i) \<noteq> toc_outlineRef document"
    by (auto simp: assignmentsFrom_fst toc_refs)
  show ?thesis
    using ne fold_assign_lookup [OF d m]
    by (simp add: toc_unfold [OF assms(1)] assign_def addObjectsToPDF_assignments)
qed

lemma toc_lookup_outline:
  assumes "items \<noteq> []"
  shows "indirectObjects (pdf_context (toc items document)) (toc_outlineRef document)
         = Some (Map.empty(''First'' \<mapsto> PDFRef (ref (toc_itemsWithRefs items document ! 0)),
             ''Last'' \<mapsto> PDFRef (ref (toc_itemsWithRefs items document
                  ! (length (toc_itemsWithRefs items document) - 1))),
             ''Count'' \<mapsto> PDFNumber (countAll (toc_itemsWithRefs items document))))"
  by (simp add: toc_unfold [OF assms] assign_def)


lemma allNodes_siblings:
  "node \<in> set (allNodes items) \<Longrightarrow> \<exists>s \<in> set (siblings items). node \<in> set s"
proof -
  have "node \<in> set (allNodes items) \<Longrightarrow>
        node \<in> set items \<or> (\<exists>s \<in> set (childLists items). node \<in> set s)"
    by (induction items rule: allNodes.induct) auto
  then show "node \<in> set (allNodes items) \<Longrightarrow> \<exists>s \<in> set (siblings items). node \<in> set s"
    by (auto simp: siblings_def)
qed


lemma outlineItem_Count:
  "outlineItem s i node ''Count''
   = (if children node = [] then None else Some (PDFNumber (countAll (children node))))"
  by (simp add: outlineItem_def Let_def split: option.splits)





text \<open>
  Claim C1. For every non-empty table of contents given to \<open>toc\<close>, the \<open>Count\<close>
  written into the dictionary of the outline root is the number of nodes of the whole
  tree, and for every node that has children the \<open>Count\<close> written into the
  dictionary of that node is the number of nodes below it, the node itself not
  counted. The nodes with their references are the given tree (first conjunct), and
  the outline root is the object that the catalog names under \<open>Outlines\<close>.
\<close>

theorem toc_Count:
  assumes "items \<noteq> []"
  shows "map toTOCItem (toc_itemsWithRefs items document) = items \<and>
    catalog (toc items document) ''Outlines'' = Some (PDFRef (toc_outlineRef document)) \<and>
    (\<exists>outline.
       indirectObjects (pdf_context (toc items document)) (toc_outlineRef document)
         = Some outline \<and>
       outline ''Count'' = Some (PDFNumber (nodeCount items))) \<and>
    (\<forall>node \<in> set (allNodes (toc_itemsWithRefs items document)).
       children node \<noteq> [] \<longrightarrow>
       (\<exists>child.
          indirectObjects (pdf_context (toc items document)) (ref node) = Some child \<and>
          child ''Count'' = Some (PDFNumber (descendants (toTOCItem node)))))"
proof (intro conjI ballI impI)
  let ?its = "toc_itemsWithRefs items document"
  show "map toTOCItem ?its = items"
    by (rule toc_items)
  show "catalog (toc items document) ''Outlines'' = Some (PDFRef (toc_outlineRef document))"
    by (simp add: toc_unfold [OF assms])
  have "nodeCount (map toTOCItem ?its) = length (allNodes ?its)"
    unfolding nodeCount_def by (rule nodeCount_allNodes)
  then have "countAll ?its = nodeCount items"
    by (simp add: toc_items countAll_allNodes)
  then show "\<exists>outline.
       indirectObjects (pdf_context (toc items document)) (toc_outlineRef document)
         = Some outline \<and>
       outline ''Count'' = Some (PDFNumber (nodeCount items))"
    by (simp add: toc_lookup_outline [OF assms])
next
  fix node
  assume node: "node \<in> set (allNodes (toc_itemsWithRefs items document))"
    and cs: "children node \<noteq> []"
  from allNodes_siblings [OF node] obtain s i
    where s: "s \<in> set (siblings (toc_itemsWithRefs items document))"
      and i: "i < length s" and at: "s ! i = node"
    by (auto simp: in_set_conv_nth)
  from toc_lookup_node [OF assms s i] cs
  show "\<exists>child.
          indirectObjects (pdf_context (toc items document)) (ref node) = Some child \<and>
          child ''Count'' = Some (PDFNumber (descendants (toTOCItem node)))"
    by (simp add: at outlineItem_Count countAll_allNodes descendants_allNodes)
qed

theorem toc_Count_witness:
  "example_toc \<noteq> [] \<and>
   toc_outlineRef example_document = 11 \<and>
   map ref (allNodes (toc_itemsWithRefs example_toc example_document)) = [12, 13, 14, 15] \<and>
   (\<exists>outline.
      indirectObjects (pdf_context (toc example_toc example_document)) 11 = Some outline \<and>
      outline ''Count'' = Some (PDFNumber 4)) \<and>
   (\<exists>child.
      indirectObjects (pdf_context (toc example_toc example_document)) 12 = Some child \<and>
      child ''Count'' = Some (PDFNumber 2))"
proof -
  have ne: "example_toc \<noteq> []"
    by (simp add: example_toc_def)
  have r: "toc_outlineRef example_document = 11"
    by (simp add: toc_outlineRef_def nextRef_def example_document_def)
  have its: "toc_itemsWithRefs example_toc example_document =
      [PDFTocItem ''ch1'' ''One''
         [PDFTocItem ''s1'' ''First'' [] 13 12, PDFTocItem ''s2'' ''Second'' [] 14 12] 12 11,
       PDFTocItem ''ch2'' ''Two'' [] 15 11]"
    by (simp add: toc_itemsWithRefs_def toc_outlineRef_def nextRef_def example_document_def
        example_toc_def)
  have n: "nodeCount example_toc = 4"
    by (simp add: nodeCount_def example_toc_def)
  from toc_Count [OF ne, of example_document] show ?thesis
    by (simp add: ne r its n numeral_2_eq_2)
qed



text \<open>
  Claim C6. For the empty table of contents \<open>toc\<close> changes nothing: the document is
  returned as it was, with no object allocated or assigned and no \<open>Outlines\<close> entry
  added to the catalog, and nothing is thrown.
\<close>

theorem toc_empty: "toc [] document = document"
  by (simp add: toc_def)

section \<open>The metadata injector\<close>

lemma find_js_find:
  "find_js isBookProducer entries = Inr found \<Longrightarrow>
     found = find (\<lambda>entry. roleOf entry = Some ''bkp'') entries"
proof (induction entries)
  case Nil
  then show ?case by simp
next
  case (Cons entry entries)
  then show ?case
    by (auto simp: isBookProducer_def roleOf_def first_v_def
        split: sum.splits option.splits list.splits bool.splits if_splits)
qed

lemma contributorFound_find:
  "contributorFound tree = Inr found \<Longrightarrow>
     found = (case tree metaTerms_contributor of
                None \<Rightarrow> None
              | Some entries \<Rightarrow> find (\<lambda>entry. roleOf entry = Some ''bkp'') entries)"
  by (auto simp: contributorFound_def dest: find_js_find split: option.splits)

lemma first_v_Inr:
  "first_v entries = Inr text \<Longrightarrow>
     text = (case entries of Some (entry # _) \<Rightarrow> Some (item_v entry) | _ \<Rightarrow> None)"
  by (auto simp: first_v_def split: option.splits list.splits)

lemma cond_set:
  "(if c then setTitle x d else d) = d\<lparr>Title := if c then Some x else Title d\<rparr>"
  "(if c then setAuthor x d else d) = d\<lparr>Author := if c then Some x else Author d\<rparr>"
  "(if c then setSubject x d else d) = d\<lparr>Subject := if c then Some x else Subject d\<rparr>"
  "(if c then setCreator x d else d) = d\<lparr>Creator := if c then Some x else Creator d\<rparr>"
  "(if c then setLanguage x d else d) = d\<lparr>Language := if c then Some x else Language d\<rparr>"
  "(case k of Some texts \<Rightarrow> setKeywords texts d | None \<Rightarrow> d)
   = d\<lparr>Keywords := case k of Some texts \<Rightarrow> Some texts | None \<Rightarrow> Keywords d\<rparr>"
  "(case t of Some date \<Rightarrow> setCreationDate date d | None \<Rightarrow> d)
   = d\<lparr>CreationDate := case t of Some date \<Rightarrow> Some date | None \<Rightarrow> CreationDate d\<rparr>"
  by (simp_all add: setTitle_def setAuthor_def setSubject_def setCreator_def setLanguage_def
      setKeywords_def setCreationDate_def split: option.splits)

lemma metadata_result:
  assumes "metadata newDate tree document = (None, document')"
  shows "\<exists>title subject found language creation.
     first_v (tree metaTerms_title) = Inr title \<and>
     first_v (tree metaTerms_description) = Inr subject \<and>
     contributorFound tree = Inr found \<and>
     first_v (tree metaTerms_language) = Inr language \<and>
     first_v (creationTerm tree) = Inr creation \<and>
     document' = document
       \<lparr>Producer := Some ''Vivliostyle'',
        Title := if truthy title then Some (the title) else Title document,
        Author :=
          if truthy (map_option (\<lambda>items. join ''; '' (map item_v items)) (tree metaTerms_creator))
          then Some (the (map_option (\<lambda>items. join ''; '' (map item_v items))
                 (tree metaTerms_creator)))
          else Author document,
        Subject := if truthy subject then Some (the subject) else Subject document,
        Keywords := case map_option (map item_v) (tree metaTerms_subject) of
                      Some texts \<Rightarrow> Some texts | None \<Rightarrow> Keywords document,
        Creator := if truthy (map_option item_v found)
                   then Some (the (map_option item_v found)) else Creator document,
        Language := if truthy language then Some (the language) else Language document,
        CreationDate := case (if truthy creation then Some (newDate (the creation)) else None) of
                          Some date \<Rightarrow> Some date | None \<Rightarrow> CreationDate document\<rparr>"
  using assms
  by (simp add: metadata_def Let_def cond_set setProducer_def
      split: sum.splits split del: if_split cong: if_cong option.case_cong)

lemma metadata_error:
  "fst (metadata newDate tree document) =
     (case first_v (tree metaTerms_title) of Inl e \<Rightarrow> Some e | Inr _ \<Rightarrow>
      case first_v (tree metaTerms_description) of Inl e \<Rightarrow> Some e | Inr _ \<Rightarrow>
      case contributorFound tree of Inl e \<Rightarrow> Some e | Inr _ \<Rightarrow>
      case first_v (tree metaTerms_language) of Inl e \<Rightarrow> Some e | Inr _ \<Rightarrow>
      case first_v (creationTerm tree) of Inl e \<Rightarrow> Some e | Inr _ \<Rightarrow> None)"
  by (simp add: metadata_def Let_def split: sum.splits split del: if_split)

lemma metadata_Producer:
  "Producer (snd (metadata newDate tree document)) = Some ''Vivliostyle''"
  by (simp add: metadata_def Let_def cond_set setProducer_def
      split: sum.splits split del: if_split cong: if_cong option.case_cong)

lemma metadata_Creator_found:
  assumes "metadata newDate tree document = (None, document')"
  shows "\<exists>found. contributorFound tree = Inr found \<and>
     Creator document' = (if truthy (map_option item_v found)
           then Some (the (map_option item_v found)) else Creator document)"
  using metadata_result [OF assms] by (elim exE conjE) (simp split del: if_split)

lemma metadata_CreationDate_creation:
  assumes "metadata newDate tree document = (None, document')"
  shows "\<exists>creation. first_v (creationTerm tree) = Inr creation \<and>
     CreationDate document' =
       (if truthy creation then Some (newDate (the creation)) else CreationDate document)"
  using metadata_result [OF assms]
  apply (elim exE conjE)
  apply (simp split del: if_split)
  apply simp
  done

lemmas metaTerms_defs = prefixes_dcterms_def prefixes_meta_def metaTerms_title_def
  metaTerms_creator_def metaTerms_description_def metaTerms_subject_def
  metaTerms_contributor_def metaTerms_language_def metaTerms_role_def metaTerms_created_def
  metaTerms_date_def

lemmas metadata_eval = metadata_def Let_def first_v_def truthy_def contributorFound_def
  creationTerm_def isBookProducer_def role_bkp_def setProducer_def setTitle_def setAuthor_def
  setSubject_def setKeywords_def setCreator_def setLanguage_def setCreationDate_def
  metaTerms_defs

text \<open>
  Claim C3, amended. \<open>Producer\<close> is set to \<open>Vivliostyle\<close> by every call, whatever
  the record holds and whatever the field held before, also by a call that throws
  later. For every record on which \<open>metadata\<close> completes: \<open>Title\<close>, \<open>Subject\<close> and
  \<open>Language\<close> are set exactly when the \<open>title\<close>, \<open>description\<close> and \<open>language\<close> term is
  there and the text of its first entry is not empty; \<open>Author\<close> exactly when the
  \<open>creator\<close> term is there and the joined text is not empty; \<open>Keywords\<close> exactly when
  the \<open>subject\<close> term is there; \<open>Creator\<close> exactly when a contributor entry has the
  role \<open>bkp\<close> and the first such entry has a text that is not empty; \<open>CreationDate\<close>
  exactly when the \<open>created\<close> term, or without it the \<open>date\<close> term, has a first entry
  with a text that is not empty. A field that is not set keeps the value it had.
\<close>

theorem metadata_fields:
  "Producer (snd (metadata newDate tree document)) = Some ''Vivliostyle'' \<and>
   (metadata newDate tree document = (None, document') \<longrightarrow>
    Producer document' = Some ''Vivliostyle'' \<and>
    Title document' =
      (case tree metaTerms_title of
         Some (entry # _) \<Rightarrow> if item_v entry = [] then Title document else Some (item_v entry)
       | _ \<Rightarrow> Title document) \<and>
    Author document' =
      (case tree metaTerms_creator of
         Some entries \<Rightarrow>
           if join ''; '' (map item_v entries) = [] then Author document
           else Some (join ''; '' (map item_v entries))
       | None \<Rightarrow> Author document) \<and>
    Subject document' =
      (case tree metaTerms_description of
         Some (entry # _) \<Rightarrow>
           if item_v entry = [] then Subject document else Some (item_v entry)
       | _ \<Rightarrow> Subject document) \<and>
    Keywords document' =
      (case tree metaTerms_subject of
         Some entries \<Rightarrow> Some (map item_v entries)
       | None \<Rightarrow> Keywords document) \<and>
    Creator document' =
      (case tree metaTerms_contributor of
         Some entries \<Rightarrow>
           (case find (\<lambda>entry. roleOf entry = Some ''bkp'') entries of
              Some entry \<Rightarrow>
                if item_v entry = [] then Creator document else Some (item_v entry)
            | None \<Rightarrow> Creator document)
       | None \<Rightarrow> Creator document) \<and>
    Language document' =
      (case tree metaTerms_language of
         Some (entry # _) \<Rightarrow>
           if item_v entry = [] then Language document else Some (item_v entry)
       | _ \<Rightarrow> Language document) \<and>
    CreationDate document' =
      (case creationTerm tree of
         Some (entry # _) \<Rightarrow>
           if item_v entry = [] then CreationDate document
           else Some (newDate (item_v entry))
       | _ \<Rightarrow> CreationDate document))"
proof (intro conjI impI)
  show "Producer (snd (metadata newDate tree document)) = Some ''Vivliostyle''"
    by (rule metadata_Producer)
next
  assume m: "metadata newDate tree document = (None, document')"
  from metadata_result [OF m] obtain title subject found language creation
    where title: "first_v (tree metaTerms_title) = Inr title"
      and subject: "first_v (tree metaTerms_description) = Inr subject"
      and found: "contributorFound tree = Inr found"
      and language: "first_v (tree metaTerms_language) = Inr language"
      and creation: "first_v (creationTerm tree) = Inr creation"
      and d: "document' = document
       \<lparr>Producer := Some ''Vivliostyle'',
        Title := if truthy title then Some (the title) else Title document,
        Author :=
          if truthy (map_option (\<lambda>items. join ''; '' (map item_v items)) (tree metaTerms_creator))
          then Some (the (map_option (\<lambda>items. join ''; '' (map item_v items))
                 (tree metaTerms_creator)))
          else Author document,
        Subject := if truthy subject then Some (the subject) else Subject document,
        Keywords := case map_option (map item_v) (tree metaTerms_subject) of
                      Some texts \<Rightarrow> Some texts | None \<Rightarrow> Keywords document,
        Creator := if truthy (map_option item_v found)
                   then Some (the (map_option item_v found)) else Creator document,
        Language := if truthy language then Some (the language) else Language document,
        CreationDate := case (if truthy creation then Some (newDate (the creation)) else None) of
                          Some date \<Rightarrow> Some date | None \<Rightarrow> CreationDate document\<rparr>"
    by blast
  show "Producer document' = Some ''Vivliostyle''"
    by (simp add: d)
  show "Title document' =
      (case tree metaTerms_title of
         Some (entry # _) \<Rightarrow> if item_v entry = [] then Title document else Some (item_v entry)
       | _ \<Rightarrow> Title document)"
    by (simp add: d first_v_Inr [OF title] truthy_def split: option.splits list.splits)
  show "Author document' =
      (case tree metaTerms_creator of
         Some entries \<Rightarrow>
           if join ''; '' (map item_v entries) = [] then Author document
           else Some (join ''; '' (map item_v entries))
       | None \<Rightarrow> Author document)"
    by (simp add: d truthy_def split: option.splits)
  show "Subject document' =
      (case tree metaTerms_description of
         Some (entry # _) \<Rightarrow>
           if item_v entry = [] then Subject document else Some (item_v entry)
       | _ \<Rightarrow> Subject document)"
    by (simp add: d first_v_Inr [OF subject] truthy_def split: option.splits list.splits)
  show "Keywords document' =
      (case tree metaTerms_subject of
         Some entries \<Rightarrow> Some (map item_v entries)
       | None \<Rightarrow> Keywords document)"
    by (simp add: d split: option.splits)
  show "Creator document' =
      (case tree metaTerms_contributor of
         Some entries \<Rightarrow>
           (case find (\<lambda>entry. roleOf entry = Some ''bkp'') entries of
              Some entry \<Rightarrow>
                if item_v entry = [] then Creator document else Some (item_v entry)
            | None \<Rightarrow> Creator document)
       | None \<Rightarrow> Creator document)"
    by (simp add: d contributorFound_find [OF found] truthy_def split: option.splits)
  show "Language document' =
      (case tree metaTerms_language of
         Some (entry # _) \<Rightarrow>
           if item_v entry = [] then Language document else Some (item_v entry)
       | _ \<Rightarrow> Language document)"
    by (simp add: d first_v_Inr [OF language] truthy_def split: option.splits list.splits)
  show "CreationDate document' =
      (case creationTerm tree of
         Some (entry # _) \<Rightarrow>
           if item_v entry = [] then CreationDate document
           else Some (newDate (item_v entry))
       | _ \<Rightarrow> CreationDate document)"
    by (simp add: d first_v_Inr [OF creation] truthy_def split: option.splits list.splits)
qed


theorem metadata_fields_witness:
  "metadata invalidDate meta_titled example_document
     = (None, example_document\<lparr>Producer := Some ''Vivliostyle'', Title := Some ''Book''\<rparr>) \<and>
   Title (example_document\<lparr>Producer := Some ''Vivliostyle'', Title := Some ''Book''\<rparr>)
     = Some ''Book'' \<and>
   Author (example_document\<lparr>Producer := Some ''Vivliostyle'', Title := Some ''Book''\<rparr>)
     = None"
proof -
  have m: "metadata invalidDate meta_titled example_document
     = (None, example_document\<lparr>Producer := Some ''Vivliostyle'', Title := Some ''Book''\<rparr>)"
    by (simp add: metadata_eval meta_titled_def)
  have t: "meta_titled metaTerms_title = Some [MetaItem ''Book'' None]"
    "meta_titled metaTerms_creator = None"
    by (simp_all add: meta_titled_def metaTerms_defs)
  from metadata_fields [of invalidDate meta_titled example_document
      "example_document\<lparr>Producer := Some ''Vivliostyle'', Title := Some ''Book''\<rparr>"] m
  show ?thesis
    by (simp add: t example_document_def)
qed

text \<open>
  The record whose \<open>title\<close> term is there with an empty text: the call completes and
  \<open>Title\<close> is not set.
\<close>

theorem metadata_fields_counterexample:
  "meta_empty_title metaTerms_title = Some [MetaItem [] None] \<and>
   fst (metadata invalidDate meta_empty_title example_document) = None \<and>
   Title (snd (metadata invalidDate meta_empty_title example_document)) = None"
  by (simp add: metadata_eval meta_empty_title_def example_document_def)

text \<open>
  Claim C7, amended. For every record on which \<open>metadata\<close> completes, \<open>Creator\<close> is set
  to the text of the first contributor entry whose \<open>role\<close> qualifier starts with the
  text \<open>bkp\<close> when that text is not empty, and keeps the value it had when there is no
  such entry, also when other contributor entries are there, or when that text is
  empty.
\<close>

theorem metadata_Creator:
  assumes "fst (metadata newDate tree document) = None"
  shows "Creator (snd (metadata newDate tree document)) =
     (case tree metaTerms_contributor of
        None \<Rightarrow> Creator document
      | Some entries \<Rightarrow>
          (case find (\<lambda>entry. roleOf entry = Some ''bkp'') entries of
             None \<Rightarrow> Creator document
           | Some entry \<Rightarrow>
               if item_v entry = [] then Creator document else Some (item_v entry)))"
proof -
  from assms have "metadata newDate tree document = (None, snd (metadata newDate tree document))"
    by (cases "metadata newDate tree document") simp
  from metadata_Creator_found [OF this] obtain found
    where found: "contributorFound tree = Inr found"
      and c: "Creator (snd (metadata newDate tree document))
        = (if truthy (map_option item_v found)
           then Some (the (map_option item_v found)) else Creator document)"
    by blast
  show ?thesis
    by (simp add: c contributorFound_find [OF found] truthy_def split: option.splits)
qed

text \<open>
  The two records of the specification: contributors \<open>A\<close> with the role \<open>bkp\<close> and \<open>B\<close>
  without a role give \<open>Creator\<close> \<open>A\<close>; contributor \<open>B\<close> alone leaves \<open>Creator\<close> not set.
\<close>

theorem metadata_Creator_witness:
  "fst (metadata invalidDate meta_producer_A example_document) = None \<and>
   Creator (snd (metadata invalidDate meta_producer_A example_document)) = Some ''A'' \<and>
   fst (metadata invalidDate meta_contributor_B example_document) = None \<and>
   Creator (snd (metadata invalidDate meta_contributor_B example_document)) = None"
proof -
  have a: "fst (metadata invalidDate meta_producer_A example_document) = None"
    by (simp add: metadata_eval meta_producer_A_def)
  have b: "fst (metadata invalidDate meta_contributor_B example_document) = None"
    by (simp add: metadata_eval meta_contributor_B_def)
  have ta: "meta_producer_A metaTerms_contributor
      = Some [MetaItem ''A'' (Some role_bkp), MetaItem ''B'' None]"
    by (simp add: meta_producer_A_def)
  have tb: "meta_contributor_B metaTerms_contributor = Some [MetaItem ''B'' None]"
    by (simp add: meta_contributor_B_def)
  have r: "roleOf (MetaItem ''A'' (Some role_bkp)) = Some ''bkp''"
    "roleOf (MetaItem ''B'' None) = None"
    by (simp_all add: roleOf_def role_bkp_def)
  from metadata_Creator [OF a] metadata_Creator [OF b] a b show ?thesis
    by (simp add: ta tb r example_document_def)
qed

text \<open>
  Two contributors with the role \<open>bkp\<close>, the first with an empty text and the second
  with the text \<open>B\<close>: the call completes and \<open>Creator\<close> is not set, neither to the
  empty text nor to \<open>B\<close>.
\<close>

theorem metadata_Creator_counterexample:
  "map roleOf (the (meta_unnamed_producer metaTerms_contributor))
     = [Some ''bkp'', Some ''bkp''] \<and>
   map item_v (the (meta_unnamed_producer metaTerms_contributor)) = [[], ''B''] \<and>
   fst (metadata invalidDate meta_unnamed_producer example_document) = None \<and>
   Creator (snd (metadata invalidDate meta_unnamed_producer example_document)) = None"
proof -
  have "roleOf (MetaItem [] (Some role_bkp)) = Some ''bkp''"
    "roleOf (MetaItem ''B'' (Some role_bkp)) = Some ''bkp''"
    by (simp_all add: roleOf_def role_bkp_def)
  then have "map roleOf (the (meta_unnamed_producer metaTerms_contributor))
     = [Some ''bkp'', Some ''bkp'']"
    "map item_v (the (meta_unnamed_producer metaTerms_contributor)) = [[], ''B'']"
    by (simp_all add: meta_unnamed_producer_def)
  moreover have "metadata invalidDate meta_unnamed_producer example_document
      = (None, example_document\<lparr>Producer := Some ''Vivliostyle''\<rparr>)"
    by (simp add: metadata_eval meta_unnamed_producer_def)
  ultimately show ?thesis
    by (simp add: example_document_def)
qed

text \<open>
  Claim C10, amended. When the term that the creation date is read from, \<open>created\<close> or
  without it \<open>date\<close>, has a first entry with a text that is not empty, and no
  \<open>TypeError\<close> stops the call (whether one does is the same for every \<open>Date\<close>
  constructor), \<open>metadata\<close> completes and sets \<open>CreationDate\<close> to \<open>new Date(text)\<close>,
  whatever that date is: an invalid date is stored like a valid one.
\<close>

theorem metadata_CreationDate:
  assumes "creationTerm tree = Some (entry # entries)" and "item_v entry \<noteq> []"
    and "fst (metadata newDate0 tree document) = None"
  shows "fst (metadata newDate tree document) = None \<and>
    CreationDate (snd (metadata newDate tree document)) = Some (newDate (item_v entry))"
proof -
  have e: "fst (metadata newDate tree document) = None"
    using assms(3) by (simp add: metadata_error)
  then have "metadata newDate tree document = (None, snd (metadata newDate tree document))"
    by (cases "metadata newDate tree document") simp
  from metadata_CreationDate_creation [OF this] obtain creation
    where creation: "first_v (creationTerm tree) = Inr creation"
      and c: "CreationDate (snd (metadata newDate tree document))
        = (if truthy creation then Some (newDate (the creation)) else CreationDate document)"
    by blast
  from first_v_Inr [OF creation] assms(1,2) have "creation = Some (item_v entry)"
    by simp
  with assms(2) e show ?thesis
    by (simp add: c truthy_def)
qed

theorem metadata_CreationDate_witness:
  "creationTerm meta_bad_date = Some [MetaItem ''soon'' None] \<and>
   fst (metadata invalidDate meta_bad_date example_document) = None \<and>
   CreationDate (snd (metadata invalidDate meta_bad_date example_document))
     = Some (JSDate None)"
proof -
  have t: "creationTerm meta_bad_date = Some [MetaItem ''soon'' None]"
    by (simp add: creationTerm_def meta_bad_date_def)
  have n: "item_v (MetaItem ''soon'' None) \<noteq> []"
    by simp
  have e: "fst (metadata (\<lambda>text. JSDate (Some 0)) meta_bad_date example_document) = None"
    by (simp add: metadata_eval meta_bad_date_def)
  from metadata_CreationDate [OF t n e, of invalidDate] t show ?thesis
    by (simp add: invalidDate_def)
qed

text \<open>
  The \<open>created\<close> term is there with an empty text and the \<open>date\<close> term has the text
  \<open>2020-01-01\<close>: the call completes and \<open>CreationDate\<close> is not set.
\<close>

theorem metadata_CreationDate_counterexample:
  "meta_undated metaTerms_date = Some [MetaItem ''2020-01-01'' None] \<and>
   fst (metadata invalidDate meta_undated example_document) = None \<and>
   CreationDate (snd (metadata invalidDate meta_undated example_document)) = None"
  by (simp add: metadata_eval meta_undated_def example_document_def)

section \<open>Rounding of JavaScript numbers\<close>

text \<open>
  The exponent found by \<open>ilog2\<close> is the right one, and \<open>js_round\<close> gives a number
  with a significand of at most 53 bits at a distance of at most half a unit in the
  last place.
\<close>

lemma bits_bounds: "0 < n \<Longrightarrow> 2 ^ (bits n - 1) \<le> n \<and> n < 2 ^ bits n"
proof (induction n rule: bits.induct)
  case (1 n)
  show ?case
  proof (cases "n div 2 = 0")
    case True
    with "1.prems" have "n = Suc 0" by (simp add: div_eq_0_iff)
    then show ?thesis
      by (simp add: bits.simps [of "Suc 0"] bits.simps [of 0])
  next
    case False
    with "1.IH" "1.prems" have ih: "2 ^ (bits (n div 2) - 1) \<le> n div 2" "n div 2 < 2 ^ bits (n div 2)"
      by simp_all
    have b: "bits n = Suc (bits (n div 2))"
      using "1.prems" by (simp add: bits.simps [of n])
    have pos: "0 < bits (n div 2)"
      using False by (simp add: bits.simps [of "n div 2"])
    then have "(2::nat) ^ bits (n div 2) = 2 * 2 ^ (bits (n div 2) - 1)"
      by (cases "bits (n div 2)") simp_all
    then have "(2::nat) ^ (bits n - 1) = 2 * 2 ^ (bits (n div 2) - 1)"
      by (simp add: b)
    also have "\<dots> \<le> 2 * (n div 2)"
      using ih(1) by simp
    also have "\<dots> \<le> n"
      by simp
    finally have lower: "2 ^ (bits n - 1) \<le> n" .
    have "n < 2 * (n div 2 + 1)"
      by presburger
    also have "\<dots> \<le> 2 * 2 ^ bits (n div 2)"
      using ih(2) by simp
    finally have "n < 2 ^ bits n"
      by (simp add: b)
    with lower show ?thesis by simp
  qed
qed

lemma pow2_pos: "0 < pow2 e"
  by (simp add: pow2_def)

lemma pow2_Suc: "pow2 (e + 1) = 2 * pow2 e"
proof (cases "0 \<le> e")
  case True
  then have "nat (e + 1) = Suc (nat e)" by simp
  with True show ?thesis by (simp add: pow2_def)
next
  case False
  then have "nat (- e) = Suc (nat (- (e + 1)))" by simp
  with False show ?thesis by (auto simp: pow2_def)
qed

lemma pow2_nat: "pow2 (int n) = 2 ^ n"
  by (simp add: pow2_def)

lemma pow2_neg_nat: "pow2 (- int n) = 1 / 2 ^ n"
  by (auto simp: pow2_def)

lemma ilog2_bounds:
  assumes "0 < x"
  shows "pow2 (ilog2 x) \<le> x \<and> x < pow2 (ilog2 x + 1)"
proof (cases "1 \<le> x")
  case True
  define n where "n = nat \<lfloor>x\<rfloor>"
  from True have n: "0 < n" "rat_of_nat n \<le> x" "x < rat_of_nat n + 1"
    by (simp_all add: n_def of_nat_nat floor_less_iff le_floor_iff) linarith+
  from bits_bounds [OF n(1)] have b: "2 ^ (bits n - 1) \<le> n" "n < 2 ^ bits n"
    by simp_all
  have pos: "0 < bits n"
    using n(1) by (simp add: bits.simps [of n])
  have e: "ilog2 x = int (bits n - 1)"
    using True pos by (simp add: ilog2_def n_def)
  have "pow2 (ilog2 x) = rat_of_nat (2 ^ (bits n - 1))"
    by (simp add: e pow2_nat)
  also have "\<dots> \<le> rat_of_nat n"
    using b(1) by (simp only: of_nat_le_iff)
  finally have lower: "pow2 (ilog2 x) \<le> x"
    using n(2) by simp
  have "n + 1 \<le> 2 ^ bits n"
    using b(2) by simp
  then have "rat_of_nat (n + 1) \<le> rat_of_nat (2 ^ bits n)"
    by (simp only: of_nat_le_iff)
  moreover have "ilog2 x + 1 = int (bits n)"
    using pos by (simp add: e)
  ultimately have "x < pow2 (ilog2 x + 1)"
    using n(3) by (simp add: pow2_nat)
  with lower show ?thesis by simp
next
  case False
  define m where "m = nat (\<lceil>1 / x\<rceil> - 1)"
  from False assms have inv: "1 < 1 / x"
    by simp
  then have c: "2 \<le> \<lceil>1 / x\<rceil>"
    by (simp add: le_ceiling_iff) 
  then have m: "0 < m" "rat_of_nat m < 1 / x" "1 / x \<le> rat_of_nat m + 1"
    by (simp_all add: m_def of_nat_nat) linarith+
  from bits_bounds [OF m(1)] have b: "2 ^ (bits m - 1) \<le> m" "m < 2 ^ bits m"
    by simp_all
  have pos: "0 < bits m"
    using m(1) by (simp add: bits.simps [of m])
  have e: "ilog2 x = - int (bits m)"
    using False by (simp add: ilog2_def m_def)
  have "m + 1 \<le> 2 ^ bits m"
    using b(2) by simp
  then have "rat_of_nat (m + 1) \<le> rat_of_nat (2 ^ bits m)"
    by (simp only: of_nat_le_iff)
  with m(3) have "1 / x \<le> 2 ^ bits m"
    by simp
  with assms have "1 / 2 ^ bits m \<le> x"
    by (simp add: field_simps)
  then have lower: "pow2 (ilog2 x) \<le> x"
    by (simp add: e pow2_neg_nat)
  have "rat_of_nat (2 ^ (bits m - 1)) \<le> rat_of_nat m"
    using b(1) by (simp only: of_nat_le_iff)
  then have "(2::rat) ^ (bits m - 1) \<le> rat_of_nat m"
    by simp
  with m(2) have "2 ^ (bits m - 1) < 1 / x"
    by linarith
  with assms have "x < 1 / 2 ^ (bits m - 1)"
    by (simp add: field_simps)
  moreover have "ilog2 x + 1 = - int (bits m - 1)"
    using pos by (simp add: e)
  ultimately have "x < pow2 (ilog2 x + 1)"
    by (simp add: pow2_neg_nat)
  with lower show ?thesis by simp
qed

lemma round_half_even_near: "\<bar>of_int (round_half_even q) - q\<bar> \<le> 1 / 2"
proof -
  have "of_int \<lfloor>q\<rfloor> \<le> q" "q < of_int \<lfloor>q\<rfloor> + 1"
    by linarith+
  then show ?thesis
    by (auto simp: round_half_even_def Let_def)
qed


lemma pow2_powi: "pow2 e = 2 powi e"
  by (simp add: pow2_def power_int_def inverse_eq_divide power_one_over)

lemma pow2_add: "pow2 (a + b) = pow2 a * pow2 b"
  by (simp add: pow2_powi power_int_add)

lemma pow2_mono: "a \<le> b \<Longrightarrow> pow2 a \<le> pow2 b"
  by (simp add: pow2_powi power_int_increasing)

lemma js_round_nearest:
  assumes "x \<noteq> 0" and "js_round x = Num y"
  shows "\<exists>n. y = of_int n * pow2 (max (ilog2 \<bar>x\<bar>) (- 1022) - 52) \<and>
    \<bar>n\<bar> \<le> 2 ^ 53 \<and>
    \<bar>y - x\<bar> \<le> pow2 (max (ilog2 \<bar>x\<bar>) (- 1022) - 52) / 2"
proof -
  define e where "e = max (ilog2 \<bar>x\<bar>) (- 1022)"
  define quantum where "quantum = pow2 (e - 52)"
  define n where "n = round_half_even (x / quantum)"
  have q: "quantum = pow2 (e - 52)" "0 < quantum"
    by (simp_all add: quantum_def pow2_pos)
  from assms(1,2) have y: "y = of_int n * quantum"
    by (simp add: js_round_def Let_def n_def quantum_def e_def split: if_splits)
  have near: "\<bar>of_int n - x / quantum\<bar> \<le> 1 / 2"
    unfolding n_def by (rule round_half_even_near)
  have "y - x = (of_int n - x / quantum) * quantum"
    using q(2) by (simp add: y left_diff_distrib)
  then have "\<bar>y - x\<bar> = \<bar>of_int n - x / quantum\<bar> * quantum"
    using q(2) by (simp add: abs_mult)
  also have "\<dots> \<le> 1 / 2 * quantum"
    using near q(2) by (intro mult_right_mono) simp_all
  finally have dist: "\<bar>y - x\<bar> \<le> quantum / 2"
    by simp
  from assms(1) have "\<bar>x\<bar> < pow2 (ilog2 \<bar>x\<bar> + 1)"
    using ilog2_bounds [of "\<bar>x\<bar>"] by simp
  also have "\<dots> \<le> pow2 (e + 1)"
    by (rule pow2_mono) (simp add: e_def)
  also have "pow2 (e + 1) = pow2 (53 + (e - 52))"
    by (rule arg_cong [where f = pow2]) simp
  also have "\<dots> = pow2 53 * pow2 (e - 52)"
    by (rule pow2_add)
  also have "pow2 53 = 2 ^ 53"
    by (simp add: pow2_def)
  finally have "\<bar>x\<bar> < 2 ^ 53 * quantum"
    by (simp only: q(1))
  then have "\<bar>x / quantum\<bar> < 2 ^ 53"
    using q(2) by (simp add: field_simps)
  with near have "\<bar>rat_of_int n\<bar> < 2 ^ 53 + 1"
    by linarith
  then have "rat_of_int \<bar>n\<bar> < rat_of_int (2 ^ 53 + 1)"
    by simp
  then have "\<bar>n\<bar> < 2 ^ 53 + 1"
    by (simp only: of_int_less_iff)
  then have "\<bar>n\<bar> \<le> 2 ^ 53"
    by simp
  with y dist show ?thesis
    unfolding quantum_def e_def by blast
qed

declare js_div.simps [simp del] js_mul.simps [simp del]

lemma floor_rat_numeral: "\<lfloor>numeral a / numeral b :: rat\<rfloor> = numeral a div numeral b"
  by (metis floor_divide_of_int_eq of_int_numeral)

lemma ceiling_rat_numeral: "\<lceil>numeral a / numeral b :: rat\<rceil> = - (- numeral a div numeral b)"
  by (metis ceiling_def floor_divide_of_int_eq minus_divide_left of_int_minus of_int_numeral)

lemmas js_eval = js_div.simps js_mul.simps js_round_def ilog2_def pow2_def round_half_even_def
  Let_def bits.simps floor_rat_numeral ceiling_rat_numeral

lemma js_600: "js_mul 1200 (js_div (Num 600) 1200) = Num 600"
  by (simp add: js_eval)

lemma js_400: "js_mul 800 (js_div (Num 600) 1200) = Num 400"
  by (simp add: js_eval)

lemma js_narrow:
  "js_mul 73 (js_div (Num 600) 73) = Num (5277655813324801 / 8796093022208)"
  by (simp add: js_eval)

section \<open>The cover page inserter\<close>

lemma cover_insert_pages:
  assumes "pages document = page0 # rest"
  shows "cover_insert img document world =
     (None,
      document\<lparr>pages :=
        \<lparr>page_width = js_mul (of_nat (width img)) (js_div (page_width page0) (of_nat (width img))),
         page_height = js_mul (of_nat (height img)) (js_div (page_width page0) (of_nat (width img))),
         drawn = [(img,
           js_mul (of_nat (width img)) (js_div (page_width page0) (of_nat (width img))),
           js_mul (of_nat (height img)) (js_div (page_width page0) (of_nat (width img))))]\<rparr>
        # pages document\<rparr>,
      world)"
  using assms by (simp add: cover_insert_def Let_def)

lemma cover_supported:
  assumes "url_pathname rt (src c) = Some pathName" and "pathName \<noteq> []"
    and "mediaType c = ''image/png'' \<and> decodePng rt content = Some img \<or>
         mediaType c = ''image/jpeg'' \<and> decodeJpg rt content = Some img"
    and "files world (path_join rt rootDir pathName) = Some content"
  shows "cover rt (Some c) rootDir document world =
     cover_insert img (document\<lparr>images := images document @ [img]\<rparr>)
       (world\<lparr>readLog := readLog world @ [path_join rt rootDir pathName]\<rparr>)"
  using assms by (auto simp: cover_def Let_def readFile_def)



text \<open>
  Claim C4, amended. For a cover of a supported media type whose file is read and
  decoded to an image of \<open>w\<close> by \<open>h\<close> pixels, on a document whose first page has the
  width \<open>targetWidth\<close>: \<open>cover\<close> completes; the new page is at index 0 and every page
  that was there is one index further; the new page has the width
  \<open>w * (targetWidth / w)\<close> and the height \<open>h * (targetWidth / w)\<close>, each operation
  rounded as a JavaScript number, and the image is drawn on it at that size. With a
  first page 600 wide and an image of 1200 by 800 the new page is exactly 600 by
  400.
\<close>

theorem cover_page_size:
  assumes "url_pathname rt (src c) = Some pathName" and "pathName \<noteq> []"
    and "mediaType c = ''image/png'' \<and> decodePng rt content = Some img \<or>
         mediaType c = ''image/jpeg'' \<and> decodeJpg rt content = Some img"
    and "files world (path_join rt rootDir pathName) = Some content"
    and "pages document = page0 # rest"
  shows "\<exists>document' world'.
     cover rt (Some c) rootDir document world = (None, document', world') \<and>
     length (pages document') = Suc (length (pages document)) \<and>
     (\<forall>i < length (pages document). pages document' ! Suc i = pages document ! i) \<and>
     page_width (pages document' ! 0)
       = js_mul (of_nat (width img)) (js_div (page_width page0) (of_nat (width img))) \<and>
     page_height (pages document' ! 0)
       = js_mul (of_nat (height img)) (js_div (page_width page0) (of_nat (width img))) \<and>
     drawn (pages document' ! 0)
       = [(img, page_width (pages document' ! 0), page_height (pages document' ! 0))] \<and>
     (page_width page0 = Num 600 \<and> width img = 1200 \<and> height img = 800 \<longrightarrow>
        page_width (pages document' ! 0) = Num 600 \<and>
        page_height (pages document' ! 0) = Num 400)"
proof -
  have p: "pages (document\<lparr>images := images document @ [img]\<rparr>) = page0 # rest"
    using assms(5) by simp
  show ?thesis
    unfolding cover_supported [OF assms(1-4)] cover_insert_pages [OF p]
    by (auto simp: js_600 js_400)
qed

theorem cover_page_size_witness:
  "\<exists>document' world'.
     cover example_runtime (Some \<lparr>src = ''cover.png'', mediaType = ''image/png''\<rparr>) ''/book''
       example_document example_world = (None, document', world') \<and>
     length (pages document') = 2 \<and>
     pages document' ! 1 = pages example_document ! 0 \<and>
     page_width (pages document' ! 0) = Num 600 \<and>
     page_height (pages document' ! 0) = Num 400"
proof -
  let ?c = "\<lparr>src = ''cover.png'', mediaType = ''image/png''\<rparr>"
  let ?img = "\<lparr>width = 1200, height = 800, data = [1200, 800]\<rparr>"
  have 1: "url_pathname example_runtime (src ?c) = Some ''cover.png''"
    by (simp add: example_runtime_def)
  have 2: "''cover.png'' \<noteq> []"
    by simp
  have 3: "mediaType ?c = ''image/png'' \<and> decodePng example_runtime [1200, 800] = Some ?img \<or>
           mediaType ?c = ''image/jpeg'' \<and> decodeJpg example_runtime [1200, 800] = Some ?img"
    by (simp add: example_runtime_def example_decode_def)
  have 4: "files example_world (path_join example_runtime ''/book'' ''cover.png'')
           = Some [1200, 800]"
    by (simp add: example_runtime_def example_world_def)
  have 5: "pages example_document
           = \<lparr>page_width = Num 600, page_height = Num 800, drawn = []\<rparr> # []"
    by (simp add: example_document_def)
  from cover_page_size [OF 1 2 3 4 5] show ?thesis
    by (auto simp: example_document_def)
qed

text \<open>
  A first page 600 wide and an image 73 wide: \<open>600 / 73\<close> is rounded, and the width of
  the new page is \<open>600.0000000000001\<close>, not 600.
\<close>

theorem cover_page_size_counterexample:
  "page_width (hd (pages (fst (snd
     (cover example_runtime (Some \<lparr>src = ''narrow.png'', mediaType = ''image/png''\<rparr>) ''/book''
        example_document example_world)))))
   = Num (5277655813324801 / 8796093022208) \<and>
   page_width (hd (pages example_document)) = Num 600 \<and>
   Num (5277655813324801 / 8796093022208) \<noteq> Num 600"
proof -
  let ?c = "\<lparr>src = ''narrow.png'', mediaType = ''image/png''\<rparr>"
  let ?img = "\<lparr>width = 73, height = 100, data = [73, 100]\<rparr>"
  have 1: "url_pathname example_runtime (src ?c) = Some ''narrow.png''"
    by (simp add: example_runtime_def)
  have 2: "''narrow.png'' \<noteq> []"
    by simp
  have 3: "mediaType ?c = ''image/png'' \<and> decodePng example_runtime [73, 100] = Some ?img \<or>
           mediaType ?c = ''image/jpeg'' \<and> decodeJpg example_runtime [73, 100] = Some ?img"
    by (simp add: example_runtime_def example_decode_def)
  have 4: "files example_world (path_join example_runtime ''/book'' ''narrow.png'')
           = Some [73, 100]"
    by (simp add: example_runtime_def example_world_def)
  have 5: "pages (example_document\<lparr>images := images example_document @ [?img]\<rparr>)
           = \<lparr>page_width = Num 600, page_height = Num 800, drawn = []\<rparr> # []"
    by (simp add: example_document_def)
  show ?thesis
    unfolding cover_supported [OF 1 2 3 4] cover_insert_pages [OF 5]
    by (simp add: js_narrow example_document_def)
qed





section \<open>The exporter\<close>




end
